theory Spec2Isabelle
  imports Complex_Main "HOL-Library.AList" "HOL-Library.Char_ord" "HOL-Library.List_Lexorder" "HOL-Library.Multiset"
    "HOL-Library.Product_Lexorder"
begin

section \<open>Python strings\<close>

text \<open>
  A Python \<open>str\<close> is modelled as an Isabelle \<open>string\<close>: a list of characters with code
  points 0 to 255 (the Latin-1 range). \<open>length\<close> counts characters, as Python's \<open>len\<close>
  does, and the order on strings (\<open>List_Lexorder\<close> over \<open>Char_ord\<close>) is the
  lexicographic order by code point, as Python's \<open><\<close> on \<open>str\<close> is.
\<close>

definition code :: "char \<Rightarrow> nat" where
  "code c = of_char c"

text \<open>The character class \<open>[a-z0-9]\<close> of the tokenizer's regular expression.\<close>

definition re_alnum :: "char \<Rightarrow> bool" where
  "re_alnum c = ((97 \<le> code c \<and> code c \<le> 122) \<or> (48 \<le> code c \<and> code c \<le> 57))"

text \<open>
  \<open>str.lower()\<close> on one character of the Latin-1 range: \<open>A\<close> to \<open>Z\<close> and the
  accented capitals U+00C0 to U+00DE (without the multiplication sign U+00D7) move up
  by 32; every other character stays.
\<close>

definition lower_char :: "char \<Rightarrow> char" where
  "lower_char c =
     (if (65 \<le> code c \<and> code c \<le> 90) \<or> (192 \<le> code c \<and> code c \<le> 222 \<and> code c \<noteq> 215)
      then char_of (code c + 32) else c)"

definition lower :: "string \<Rightarrow> string" where
  "lower s = map lower_char s"

text \<open>
  \<open>re.findall(r"[a-z0-9]+", s)\<close>: the maximal runs of class characters, left to right.
  \<open>cur\<close> is the run being read.
\<close>

fun findall_runs :: "string \<Rightarrow> string \<Rightarrow> string list" where
  "findall_runs cur [] = (if cur = [] then [] else [cur])"
| "findall_runs cur (c # cs) =
     (if re_alnum c then findall_runs (cur @ [c]) cs
      else (if cur = [] then [] else [cur]) @ findall_runs [] cs)"

definition findall :: "string \<Rightarrow> string list" where
  "findall s = findall_runs [] s"

text \<open>\<open>sep.join(xs)\<close>.\<close>

fun join :: "string \<Rightarrow> string list \<Rightarrow> string" where
  "join sep [] = []"
| "join sep [x] = x"
| "join sep (x # y # ys) = x @ sep @ join sep (y # ys)"

text \<open>\<open>s.split(sep)\<close> for a one-character separator.\<close>

fun split :: "char \<Rightarrow> string \<Rightarrow> string list" where
  "split sep [] = [[]]"
| "split sep (c # cs) =
     (if c = sep then [] # split sep cs
      else (case split sep cs of [] \<Rightarrow> [[c]] | w # ws \<Rightarrow> (c # w) # ws))"

text \<open>\<open>str(n)\<close> for a natural number: its decimal digits.\<close>

definition digit_char :: "nat \<Rightarrow> char" where
  "digit_char d = char_of (48 + d)"

function str_nat :: "nat \<Rightarrow> string" where
  "str_nat n = (if n < 10 then [digit_char n] else str_nat (n div 10) @ [digit_char (n mod 10)])"
  by pat_completeness auto
termination
  by (relation "measure id") auto

declare str_nat.simps [simp del]

text \<open>
  \<open>s.strip()\<close> removes the white space at both ends; in the Latin-1 range the white
  space characters are the codes 9 to 13, 28 to 32, 133 and 160.
\<close>

definition is_space :: "char \<Rightarrow> bool" where
  "is_space c =
     ((9 \<le> code c \<and> code c \<le> 13) \<or> (28 \<le> code c \<and> code c \<le> 32) \<or> code c = 133 \<or>
      code c = 160)"

definition strip :: "string \<Rightarrow> string" where
  "strip s = rev (dropWhile is_space (rev (dropWhile is_space s)))"

text \<open>\<open>s.endswith(suffix)\<close> and \<open>s.startswith(prefix)\<close>.\<close>

definition endswith :: "string \<Rightarrow> string \<Rightarrow> bool" where
  "endswith s suffix =
     (length suffix \<le> length s \<and> drop (length s - length suffix) s = suffix)"

definition startswith :: "string \<Rightarrow> string \<Rightarrow> bool" where
  "startswith s pre = (take (length pre) s = pre)"

section \<open>The lexical ranker (ra-2, \<open>locate_relevant_resouces\<close>)\<close>

text \<open>
  \<open>tokenize(text)\<close> is \<open>set(re.findall(r"[a-z0-9]+", (text or "").lower()))\<close>; a \<open>str\<close>
  argument is never \<open>None\<close>, and \<open>"" or ""\<close> is \<open>""\<close>.
\<close>

definition tokenize :: "string \<Rightarrow> string set" where
  "tokenize text = set (findall (lower text))"

text \<open>
  The segments of a POSIX path string as \<open>pathlib\<close> parses it: the pieces between
  slashes, without the empty ones and the \<open>.\<close> ones.
\<close>

definition segments :: "string \<Rightarrow> string list" where
  "segments s = filter (\<lambda>p. p \<noteq> [] \<and> p \<noteq> ''.'') (split (CHR ''/'') s)"

text \<open>\<open>Path(name).name\<close>: the last segment, the empty string when there is none.\<close>

definition path_name :: "string \<Rightarrow> string" where
  "path_name s = (let parts = segments s in if parts = [] then [] else last parts)"

text \<open>
  One value of \<open>RESOURCE_INDEX\<close>: the dictionary \<open>{"name", "path", "size", "mtime",
  "mime"}\<close> that \<open>register_file_resources\<close> stores. \<open>mtime\<close> is a finite float
  (\<open>datetime.timestamp()\<close>); it is only negated and compared, both exact on floats, so it
  is modelled by the real number it denotes.
\<close>

record meta =
  meta_name :: string
  meta_path :: string
  meta_size :: nat
  meta_mtime :: real
  meta_mime :: string

text \<open>
  \<open>RESOURCE_INDEX\<close> is a Python \<open>dict\<close>: its items in insertion order. A dictionary
  holds each key once; the theorems that need it assume \<open>distinct (map fst index)\<close>.
\<close>

type_synonym resource_index = "(string \<times> meta) list"

text \<open>The dictionary appended to \<open>candidates\<close> for one item of the index.\<close>

record candidate =
  cand_score :: nat
  cand_uri :: string
  cand_meta :: meta
  cand_filename :: string

text \<open>\<open>name = meta.get("name") or uri\<close>: the index key stands in for an empty name.\<close>

definition display_name :: "string \<times> meta \<Rightarrow> string" where
  "display_name item = (if meta_name (snd item) \<noteq> [] then meta_name (snd item) else fst item)"

definition make_candidate :: "string set \<Rightarrow> string \<times> meta \<Rightarrow> candidate" where
  "make_candidate q_tokens item =
     (let name = display_name item;
          filename = path_name name;
          overlap = card (q_tokens \<inter> tokenize (lower filename))
      in \<lparr>cand_score = overlap, cand_uri = fst item, cand_meta = snd item,
          cand_filename = filename\<rparr>)"

text \<open>
  \<open>sort_key(item)\<close>: the tuple \<open>(-score, -mtime, len(filename), uri)\<close>. Python compares
  tuples lexicographically, which is the order of \<open>Product_Lexorder\<close> on nested pairs.
\<close>

definition sort_key_item :: "candidate \<Rightarrow> int \<times> real \<times> nat \<times> string" where
  "sort_key_item item =
     (- int (cand_score item), - meta_mtime (cand_meta item), length (cand_filename item),
      cand_uri item)"

definition format_candidate :: "nat \<times> candidate \<Rightarrow> string" where
  "format_candidate p =
     str_nat (fst p) @ ''- filename: `'' @ cand_filename (snd p) @ ''` --- (overlap ''
       @ str_nat (cand_score (snd p)) @ '')''"

text \<open>The loop over \<open>RESOURCE_INDEX.items()\<close> that fills \<open>candidates\<close>.\<close>

definition build_candidates :: "string set \<Rightarrow> resource_index \<Rightarrow> candidate list" where
  "build_candidates q_tokens index = map (make_candidate q_tokens) index"

text \<open>
  \<open>candidates.sort(key=sort_key)\<close>: Python's sort is stable, as \<open>sort_key\<close> of the
  list library is.
\<close>

definition ranked :: "resource_index \<Rightarrow> string \<Rightarrow> candidate list" where
  "ranked index query =
     sort_key sort_key_item (build_candidates (tokenize (lower query)) index)"

definition locate_relevant_resouces :: "resource_index \<Rightarrow> string \<Rightarrow> string" where
  "locate_relevant_resouces index query =
     (let q_tokens = tokenize (lower query) in
      if q_tokens = {} then ''Query is empty.''
      else if index = [] then ''No resources available to search.''
      else join ''\<newline>''
             (''Top candidates:'' #
              map format_candidate (enumerate 0 (take 10 (ranked index query)))))"

section \<open>Exceptions and the environment\<close>

text \<open>
  A raised exception is a value: its class and its message (\<open>str(e)\<close>). A call that may
  raise returns \<open>exn + 'a\<close>, with \<open>Inl\<close> for the exception.
\<close>

datatype exn_class =
  UnboundLocalError | UnicodeDecodeError | PermissionError | ValueError | OtherException

datatype exn = Raised exn_class string

text \<open>
  A \<open>pathlib.Path\<close> is modelled by its \<open>parts\<close>: the root \<open>/\<close> first for an absolute
  path, then one string per segment.
\<close>

type_synonym path = "string list"

record stat_result =
  st_size :: nat
  st_mtime :: real

text \<open>
  What the program reads from outside itself, as functions of one fixed state of the
  file system and of the libraries:
  \<^item> \<open>fs_resolve w\<close> is \<open>Path(w).expanduser().resolve()\<close>, and \<open>fs_resolve_join root s\<close>
    is \<open>root.joinpath(Path(s)).resolve()\<close>;
  \<^item> \<open>fs_exists\<close>, \<open>fs_is_dir\<close>, \<open>fs_is_file\<close>, \<open>fs_is_symlink\<close> and \<open>fs_stat\<close> are the
    methods of \<open>Path\<close>; they raise on an error they do not swallow (a permission error on
    a parent directory, for one);
  \<^item> \<open>fs_glob root pattern\<close> lists the paths that \<open>root.glob(pattern)\<close> yields, in its
    order, up to its end or to the exception that ends it (a malformed pattern yields
    none);
  \<^item> \<open>fs_read_pdf p\<close> opens \<open>p\<close> and a \<open>PdfReader\<close> on it, and gives for each page of
    \<open>reader.pages\<close> what \<open>page.extract_text()\<close> returns or raises; \<open>fs_read_text p\<close>
    opens \<open>p\<close> as UTF-8 text and reads it;
  \<^item> \<open>lib_guess_type name\<close> is the first component of \<open>mimetypes.guess_type(name)\<close>;
  \<^item> \<open>lib_timestamp t\<close> is \<open>datetime.fromtimestamp(t).timestamp()\<close>;
  \<^item> \<open>lib_make_resource uri\<close> is the exception, if any, that registering the resource
    with the protocol layer (\<open>make_resource\<close>) raises.
\<close>

record env =
  fs_resolve :: "string \<Rightarrow> path"
  fs_resolve_join :: "path \<Rightarrow> string \<Rightarrow> path"
  fs_exists :: "path \<Rightarrow> exn + bool"
  fs_is_dir :: "path \<Rightarrow> exn + bool"
  fs_is_file :: "path \<Rightarrow> exn + bool"
  fs_is_symlink :: "path \<Rightarrow> exn + bool"
  fs_stat :: "path \<Rightarrow> exn + stat_result"
  fs_glob :: "path \<Rightarrow> string \<Rightarrow> path list"
  fs_read_pdf :: "path \<Rightarrow> exn + (exn + string) list"
  fs_read_text :: "path \<Rightarrow> exn + string"
  lib_guess_type :: "string \<Rightarrow> string option"
  lib_timestamp :: "real \<Rightarrow> exn + real"
  lib_make_resource :: "string \<Rightarrow> exn option"

text \<open>\<open>p.as_posix()\<close>, which is \<open>str(p)\<close> on POSIX; the empty relative path prints as a dot.\<close>

definition as_posix :: "path \<Rightarrow> string" where
  "as_posix p =
     (case p of
        [] \<Rightarrow> ''.''
      | r # segs \<Rightarrow> if r = ''/'' then ''/'' @ join ''/'' segs else join ''/'' p)"

text \<open>\<open>p.name\<close>: the last segment, empty for the root and for the empty path.\<close>

definition name_of :: "path \<Rightarrow> string" where
  "name_of p = (if p = [] \<or> p = [''/''] then [] else last p)"

text \<open>\<open>p.relative_to(root)\<close> raises \<open>ValueError\<close> unless \<open>root\<close> is a prefix of \<open>p\<close>.\<close>

definition relative_to :: "path \<Rightarrow> path \<Rightarrow> exn + path" where
  "relative_to p rootp =
     (if take (length rootp) p = rootp then Inr (drop (length rootp) p)
      else Inl (Raised ValueError ''is not in the subpath of''))"

text \<open>
  A segment as \<open>pathlib\<close> keeps it in \<open>parts\<close>: not empty, not a single dot, without a
  slash.
\<close>

definition valid_segment :: "string \<Rightarrow> bool" where
  "valid_segment s = (s \<noteq> [] \<and> s \<noteq> ''.'' \<and> CHR ''/'' \<notin> set s)"

text \<open>
  An absolute path as \<open>pathlib\<close> holds it: the root, then well-formed segments. The
  paths that \<open>root.glob\<close> yields under a resolved root are of this form.
\<close>

definition wf_path :: "path \<Rightarrow> bool" where
  "wf_path p = (p \<noteq> [] \<and> hd p = ''/'' \<and> list_all valid_segment (tl p))"

section \<open>\<open>urllib.parse.quote\<close>\<close>

text \<open>
  \<open>quote(s, safe)\<close> encodes \<open>s\<close> as UTF-8 and keeps each byte that is a letter, a digit,
  one of \<open>_.-~\<close> or a character of \<open>safe\<close>; every other byte becomes \<open>%XX\<close> with
  upper-case hexadecimal digits. A character of the Latin-1 range above U+007F has two
  bytes in UTF-8.
\<close>

definition utf8_char :: "char \<Rightarrow> string" where
  "utf8_char c =
     (if code c < 128 then [c]
      else [char_of (192 + code c div 64), char_of (128 + code c mod 64)])"

definition utf8_encode :: "string \<Rightarrow> string" where
  "utf8_encode s = concat (map utf8_char s)"

definition always_safe :: "char \<Rightarrow> bool" where
  "always_safe b =
     ((65 \<le> code b \<and> code b \<le> 90) \<or> (97 \<le> code b \<and> code b \<le> 122) \<or>
      (48 \<le> code b \<and> code b \<le> 57) \<or> b \<in> set ''_.-~'')"

definition hex_digit :: "nat \<Rightarrow> char" where
  "hex_digit d = (if d < 10 then char_of (48 + d) else char_of (55 + d))"

definition quote_byte :: "string \<Rightarrow> char \<Rightarrow> string" where
  "quote_byte safe b =
     (if always_safe b \<or> (code b < 128 \<and> b \<in> set safe) then [b]
      else [CHR ''%'', hex_digit (code b div 16), hex_digit (code b mod 16)])"

definition quote :: "string \<Rightarrow> string \<Rightarrow> string" where
  "quote s safe = concat (map (quote_byte safe) (utf8_encode s))"

section \<open>The walker and the index (\<open>register_file_resources\<close>)\<close>

text \<open>
  The body of the inner loop for one path \<open>p\<close> of \<open>root.glob(pattern)\<close>: \<open>Inr True\<close> when
  \<open>p\<close> is appended to \<open>candidates\<close>, \<open>Inr False\<close> when a \<open>continue\<close> skips it, \<open>Inl e\<close>
  when a check raises outside the inner \<open>try\<close>. \<open>p.is_symlink()\<close> is called only when
  \<open>follow_symlinks\<close> is false; a failing \<open>p.stat()\<close> skips the file.
\<close>

definition accept :: "env \<Rightarrow> string list \<Rightarrow> bool \<Rightarrow> nat option \<Rightarrow> path \<Rightarrow> exn + bool" where
  "accept env ignore_dirs follow_symlinks max_bytes p =
     (if \<exists>ig\<in>set ignore_dirs. ig \<in> set p then Inr False
      else case (if follow_symlinks then Inr False else fs_is_symlink env p) of
        Inl e \<Rightarrow> Inl e
      | Inr True \<Rightarrow> Inr False
      | Inr False \<Rightarrow>
          (case fs_exists env p of
             Inl e \<Rightarrow> Inl e
           | Inr False \<Rightarrow> Inr False
           | Inr True \<Rightarrow>
               (case fs_is_file env p of
                  Inl e \<Rightarrow> Inl e
                | Inr False \<Rightarrow> Inr False
                | Inr True \<Rightarrow>
                    (case max_bytes of
                       None \<Rightarrow> Inr True
                     | Some limit \<Rightarrow>
                         (case fs_stat env p of
                            Inl e \<Rightarrow> Inr False
                          | Inr st \<Rightarrow> Inr (\<not> st_size st > limit))))))"

text \<open>
  The inner loop over the paths of one pattern. An exception leaves the loop: the
  \<open>except Exception: continue\<close> around it goes on with the next pattern, keeping what
  was appended before.
\<close>

fun scan_paths :: "env \<Rightarrow> string list \<Rightarrow> bool \<Rightarrow> nat option \<Rightarrow> path list \<Rightarrow> path list" where
  "scan_paths env ignore_dirs follow_symlinks max_bytes [] = []"
| "scan_paths env ignore_dirs follow_symlinks max_bytes (p # ps) =
     (case accept env ignore_dirs follow_symlinks max_bytes p of
        Inl e \<Rightarrow> []
      | Inr True \<Rightarrow> p # scan_paths env ignore_dirs follow_symlinks max_bytes ps
      | Inr False \<Rightarrow> scan_paths env ignore_dirs follow_symlinks max_bytes ps)"

text \<open>
  The walker: the outer loop over \<open>include_globs\<close>, then
  \<open>candidates.sort(key=lambda x: x.as_posix())\<close>.
\<close>

definition collect :: "env \<Rightarrow> path \<Rightarrow> string list \<Rightarrow> string list \<Rightarrow> bool \<Rightarrow> nat option \<Rightarrow> path list" where
  "collect env rootp include_globs ignore_dirs follow_symlinks max_bytes =
     concat (map (\<lambda>pattern.
        scan_paths env ignore_dirs follow_symlinks max_bytes (fs_glob env rootp pattern))
        include_globs)"

definition scan :: "env \<Rightarrow> path \<Rightarrow> string list \<Rightarrow> string list \<Rightarrow> bool \<Rightarrow> nat option \<Rightarrow> path list" where
  "scan env rootp include_globs ignore_dirs follow_symlinks max_bytes =
     sort_key as_posix (collect env rootp include_globs ignore_dirs follow_symlinks max_bytes)"

text \<open>
  The body of the second loop for one candidate: every exception skips the file. The
  two calls of \<open>p.stat()\<close> read the same state and are one call here.
  \<open>RESOURCE_INDEX[uri] = ...\<close> replaces the value of a key the dictionary holds, in its
  place, and appends a new key: \<open>AList.update\<close>.
\<close>

definition make_uri :: "string \<Rightarrow> string" where
  "make_uri rel = ''workspace://'' @ quote rel ''/''"

definition index_file :: "env \<Rightarrow> path \<Rightarrow> resource_index \<Rightarrow> path \<Rightarrow> resource_index" where
  "index_file env rootp index p =
     (case relative_to p rootp of
        Inl e \<Rightarrow> index
      | Inr relp \<Rightarrow>
          (let rel = as_posix relp; uri = make_uri rel in
           case fs_stat env p of
             Inl e \<Rightarrow> index
           | Inr st \<Rightarrow>
               (case lib_timestamp env (st_mtime st) of
                  Inl e \<Rightarrow> index
                | Inr mtime \<Rightarrow>
                    (let mime = (case lib_guess_type env (name_of p) of
                                   None \<Rightarrow> ''application/pdf''
                                 | Some t \<Rightarrow> if t \<noteq> [] then t else ''application/pdf'')
                     in case lib_make_resource env uri of
                          Some e \<Rightarrow> index
                        | None \<Rightarrow>
                            AList.update uri
                              \<lparr>meta_name = rel, meta_path = as_posix p, meta_size = st_size st,
                               meta_mtime = mtime, meta_mime = mime\<rparr> index))))"

text \<open>The second loop, from the cleared index.\<close>

definition build_index :: "env \<Rightarrow> path \<Rightarrow> path list \<Rightarrow> resource_index" where
  "build_index env rootp candidates = foldl (index_file env rootp) [] candidates"

text \<open>
  \<open>register_file_resources\<close>: the state is the environment, which the function only
  reads, and \<open>RESOURCE_INDEX\<close>, which it clears and fills. When the workspace is not a
  directory it raises \<open>ValueError\<close> before it touches the index.
\<close>

record world =
  w_env :: env
  w_index :: resource_index

definition register_file_resources ::
  "world \<Rightarrow> string \<Rightarrow> string list \<Rightarrow> string list \<Rightarrow> bool \<Rightarrow> nat option \<Rightarrow> exn + world" where
  "register_file_resources w workspace include_globs ignore_dirs follow_symlinks max_bytes =
     (let env = w_env w; rootp = fs_resolve env workspace in
      case fs_exists env rootp of
        Inl e \<Rightarrow> Inl e
      | Inr False \<Rightarrow>
          Inl (Raised ValueError (''Workspace does not exist or is not a directory: '' @ workspace))
      | Inr True \<Rightarrow>
          (case fs_is_dir env rootp of
             Inl e \<Rightarrow> Inl e
           | Inr False \<Rightarrow>
               Inl (Raised ValueError
                 (''Workspace does not exist or is not a directory: '' @ workspace))
           | Inr True \<Rightarrow>
               Inr (w\<lparr>w_index :=
                 build_index env rootp
                   (scan env rootp include_globs ignore_dirs follow_symlinks max_bytes)\<rparr>)))"


section \<open>The content accessor (\<open>obtain_resource_content\<close>, the same in ra-2 and ra-3)\<close>

text \<open>
  The loop over \<open>reader.pages\<close>. \<open>limit\<close> is the outcome of \<open>int(args.limit_text)\<close>: the
  integer, or the \<open>ValueError\<close> of a command-line value that is not a number. The
  conversion runs inside the page's \<open>try\<close>, after the test \<open>if text\<close>, so its exception
  skips the page as a failing \<open>extract_text()\<close> does.
\<close>

fun page_texts :: "exn + int \<Rightarrow> (exn + string) list \<Rightarrow> string list" where
  "page_texts limit [] = []"
| "page_texts limit (page # pages) =
     (case page of
        Inl e \<Rightarrow> page_texts limit pages
      | Inr text \<Rightarrow>
          if text = [] then page_texts limit pages
          else (case limit of
                  Inl e \<Rightarrow> page_texts limit pages
                | Inr n \<Rightarrow>
                    (if n > 0 then take (nat n) text else text) # page_texts limit pages))"

text \<open>The body of the \<open>try\<close>: the text that is returned, or the exception that is raised.\<close>

definition read_content :: "env \<Rightarrow> exn + int \<Rightarrow> string \<Rightarrow> path \<Rightarrow> exn + string" where
  "read_content env limit path path_obj =
     (if endswith (lower (strip path)) ''.pdf'' then
        (case fs_read_pdf env path_obj of
           Inl e \<Rightarrow> Inl e
         | Inr pages \<Rightarrow>
             Inr (''Contents of '' @ path @ '':\<newline>'' @ join ''\<newline>'' (page_texts limit pages)))
      else
        (case fs_read_text env path_obj of
           Inl e \<Rightarrow> Inl e
         | Inr content \<Rightarrow> Inr (''Contents of '' @ path @ '':\<newline>'' @ content)))"

text \<open>The three \<open>except\<close> clauses, in their order.\<close>

fun handle_read_error :: "string \<Rightarrow> exn \<Rightarrow> string" where
  "handle_read_error path (Raised UnicodeDecodeError msg) =
     ''File is not text or uses unsupported encoding: '' @ path"
| "handle_read_error path (Raised PermissionError msg) =
     ''Permission denied reading: '' @ path"
| "handle_read_error path (Raised cls msg) = ''Error reading file: '' @ msg"

text \<open>\<open>Path(path).is_absolute()\<close> on POSIX: the string starts with a slash.\<close>

definition is_absolute :: "string \<Rightarrow> bool" where
  "is_absolute path = startswith path ''/''"

text \<open>
  \<open>obtain_resource_content(path)\<close>. \<open>path_obj\<close> is assigned only in the branch for a
  relative path; \<open>None\<close> stands for the unbound variable, whose first use raises
  \<open>UnboundLocalError\<close>. The tests \<open>exists()\<close> and \<open>is_file()\<close> stand before the \<open>try\<close>.
\<close>

definition obtain_resource_content :: "env \<Rightarrow> string \<Rightarrow> exn + int \<Rightarrow> string \<Rightarrow> exn + string" where
  "obtain_resource_content env workspace_directory limit path =
     (let rootp = fs_resolve env workspace_directory;
          path_obj = (if \<not> is_absolute path then Some (fs_resolve_join env rootp path) else None)
      in case path_obj of
           None \<Rightarrow>
             Inl (Raised UnboundLocalError
               ''cannot access local variable 'path_obj' where it is not associated with a value'')
         | Some po \<Rightarrow>
             (case fs_exists env po of
                Inl e \<Rightarrow> Inl e
              | Inr False \<Rightarrow> Inr (''File not found: '' @ path)
              | Inr True \<Rightarrow>
                  (case fs_is_file env po of
                     Inl e \<Rightarrow> Inl e
                   | Inr False \<Rightarrow> Inr (''Path is not a file: '' @ path)
                   | Inr True \<Rightarrow>
                       (case read_content env limit path po of
                          Inl e \<Rightarrow> Inr (handle_read_error path e)
                        | Inr text \<Rightarrow> Inr text))))"

section \<open>Reading a URI back\<close>







section \<open>Python floats\<close>

text \<open>
  A \<open>float\<close> is an IEEE 754 double: \<open>Float m e\<close> is the finite number \<open>m * 2 ^ e\<close>
  (a double has \<open>\<bar>m\<bar> < 2 ^ 53\<close>), and there are the two infinities and not-a-number.
  The negative zero is not told from zero: the ranker only subtracts a distance from
  \<open>1.0\<close>, where both zeros give \<open>1.0\<close>.
\<close>

datatype pyfloat = Float int int | PosInf | NegInf | NaN

definition float_value :: "int \<Rightarrow> int \<Rightarrow> real" where
  "float_value m e = (if 0 \<le> e then of_int m * 2 ^ nat e else of_int m / 2 ^ nat (- e))"

text \<open>\<open>n.bit_length()\<close> for \<open>n \<ge> 0\<close>.\<close>

function bit_length :: "int \<Rightarrow> nat" where
  "bit_length n = (if n \<le> 0 then 0 else Suc (bit_length (n div 2)))"
  by pat_completeness auto
termination
  by (relation "measure nat") auto

declare bit_length.simps [simp del]

text \<open>
  The quotient \<open>n / d\<close> of two integers, \<open>n \<ge> 0\<close> and \<open>d > 0\<close>, rounded to the nearest
  integer, a tie to the even one.
\<close>

definition round_half_even :: "int \<Rightarrow> int \<Rightarrow> int" where
  "round_half_even n d =
     (let q = n div d; r = n mod d in if d < 2 * r \<or> (2 * r = d \<and> odd q) then q + 1 else q)"

text \<open>
  The exact number \<open>m * 2 ^ e\<close> rounded to 53 significant bits, ties to even: the
  rounding of every arithmetic operation on doubles. The exponent is not bounded here;
  \<open>1.0 - d\<close> neither overflows nor falls below the normal range unless it is exact.
\<close>

definition round53 :: "int \<Rightarrow> int \<Rightarrow> pyfloat" where
  "round53 m e =
     (let a = \<bar>m\<bar>; k = bit_length a - 53 in
      if k = 0 then Float m e
      else Float (sgn m * round_half_even a (2 ^ k)) (e + int k))"

text \<open>\<open>x - y\<close> on floats.\<close>

fun float_sub :: "pyfloat \<Rightarrow> pyfloat \<Rightarrow> pyfloat" where
  "float_sub (Float m1 e1) (Float m2 e2) =
     (let e = min e1 e2 in round53 (m1 * 2 ^ nat (e1 - e) - m2 * 2 ^ nat (e2 - e)) e)"
| "float_sub NaN y = NaN"
| "float_sub x NaN = NaN"
| "float_sub PosInf PosInf = NaN"
| "float_sub NegInf NegInf = NaN"
| "float_sub PosInf y = PosInf"
| "float_sub NegInf y = NegInf"
| "float_sub x PosInf = NegInf"
| "float_sub x NegInf = PosInf"


section \<open>The similarity ranker (ra-3, \<open>locate_relevant_resources\<close>)\<close>








section \<open>Concrete inputs\<close>

text \<open>
  The index of the scenario with \<open>docs/report 1.pdf\<close> and \<open>notes/draft.pdf\<close>, and an
  index of three files called \<open>report.pdf\<close> that all score 1 on the query \<open>report\<close>:
  the newest first, then the order of the URIs.
\<close>

definition index0 :: resource_index where
  "index0 =
     [(''workspace://docs/report%201.pdf'',
       \<lparr>meta_name = ''docs/report 1.pdf'', meta_path = ''/w/docs/report 1.pdf'',
        meta_size = 10, meta_mtime = 5, meta_mime = ''application/pdf''\<rparr>),
      (''workspace://notes/draft.pdf'',
       \<lparr>meta_name = ''notes/draft.pdf'', meta_path = ''/w/notes/draft.pdf'',
        meta_size = 20, meta_mtime = 7, meta_mime = ''application/pdf''\<rparr>)]"

definition index1 :: resource_index where
  "index1 =
     [(''workspace://b/report.pdf'',
       \<lparr>meta_name = ''b/report.pdf'', meta_path = ''/w/b/report.pdf'',
        meta_size = 10, meta_mtime = 5, meta_mime = ''application/pdf''\<rparr>),
      (''workspace://a/report.pdf'',
       \<lparr>meta_name = ''a/report.pdf'', meta_path = ''/w/a/report.pdf'',
        meta_size = 20, meta_mtime = 5, meta_mime = ''application/pdf''\<rparr>),
      (''workspace://c/report.pdf'',
       \<lparr>meta_name = ''c/report.pdf'', meta_path = ''/w/c/report.pdf'',
        meta_size = 20, meta_mtime = 6, meta_mime = ''application/pdf''\<rparr>)]"

text \<open>
  A small workspace \<open>/w\<close>: \<open>a.pdf\<close>, \<open>docs/report 1.pdf\<close>, \<open>.git/x.pdf\<close> and
  \<open>notes.txt\<close>. The pattern \<open>**/*.pdf\<close> finds the three PDF files, the pattern \<open>*.pdf\<close>
  finds \<open>a.pdf\<close> again. \<open>a.pdf\<close> has four pages: 200 characters, a page whose
  extraction fails, an empty page and a short one.
\<close>

definition dirs0 :: "path list" where
  "dirs0 = [[''/''], [''/'', ''w''], [''/'', ''w'', ''docs''], [''/'', ''w'', ''.git'']]"

definition files0 :: "path list" where
  "files0 =
     [[''/'', ''w'', ''a.pdf''], [''/'', ''w'', ''docs'', ''report 1.pdf''],
      [''/'', ''w'', ''.git'', ''x.pdf''], [''/'', ''w'', ''notes.txt'']]"

definition glob0 :: "path \<Rightarrow> string \<Rightarrow> path list" where
  "glob0 rootp pattern =
     (if rootp = [''/'', ''w''] \<and> pattern = ''**/*.pdf'' then
        [[''/'', ''w'', ''docs'', ''report 1.pdf''], [''/'', ''w'', ''.git'', ''x.pdf''],
         [''/'', ''w'', ''a.pdf'']]
      else if rootp = [''/'', ''w''] \<and> pattern = ''*.pdf'' then [[''/'', ''w'', ''a.pdf'']]
      else [])"

text \<open>The same paths, listed by \<open>glob\<close> in the opposite order.\<close>

definition glob0_rev :: "path \<Rightarrow> string \<Rightarrow> path list" where
  "glob0_rev rootp pattern = rev (glob0 rootp pattern)"

definition pages0 :: "(exn + string) list" where
  "pages0 =
     [Inr (replicate 200 (CHR ''x'')), Inl (Raised OtherException ''bad page''), Inr [],
      Inr ''tail'']"

definition env0 :: env where
  "env0 =
     \<lparr>fs_resolve = (\<lambda>s. ''/'' # segments s),
      fs_resolve_join = (\<lambda>rootp s. rootp @ segments s),
      fs_exists = (\<lambda>p. Inr (p \<in> set (dirs0 @ files0))),
      fs_is_dir = (\<lambda>p. Inr (p \<in> set dirs0)),
      fs_is_file = (\<lambda>p. Inr (p \<in> set files0)),
      fs_is_symlink = (\<lambda>p. Inr False),
      fs_stat = (\<lambda>p. if p \<in> set (dirs0 @ files0) then Inr \<lparr>st_size = 10, st_mtime = 100\<rparr>
                      else Inl (Raised OtherException ''No such file or directory'')),
      fs_glob = glob0,
      fs_read_pdf = (\<lambda>p. if p = [''/'', ''w'', ''a.pdf'']
                          then Inr pages0
                          else Inl (Raised OtherException ''EOF marker not found'')),
      fs_read_text = (\<lambda>p. if p = [''/'', ''w'', ''notes.txt''] then Inr ''hello''
                           else Inl (Raised UnicodeDecodeError ''invalid start byte'')),
      lib_guess_type = (\<lambda>n. if endswith n ''.pdf'' then Some ''application/pdf'' else None),
      lib_timestamp = Inr,
      lib_make_resource = (\<lambda>uri. None)\<rparr>"


definition default_ignore :: "string list" where
  "default_ignore = [''.git'', ''.svn'', ''__pycache__'']"


text \<open>
  The doubles that the literals \<open>0.1\<close> and \<open>0.4\<close> denote, and a backend that answers
  every query with two documents at these distances.
\<close>

definition float_0_1 :: pyfloat where
  "float_0_1 = Float 7205759403792794 (- 56)"

definition float_0_4 :: pyfloat where
  "float_0_4 = Float 7205759403792794 (- 54)"




section \<open>Path strings\<close>

lemma split_no_sep: "sep \<notin> set x \<Longrightarrow> split sep x = [x]"
  by (induction x) auto

lemma split_append_sep:
  "sep \<notin> set x \<Longrightarrow> split sep (x @ sep # rest) = x # split sep rest"
  by (induction x) auto

lemma join_Cons: "ys \<noteq> [] \<Longrightarrow> join sep (x # ys) = x @ sep @ join sep ys"
  by (cases ys) auto

lemma split_join:
  "rel \<noteq> [] \<Longrightarrow> \<forall>s\<in>set rel. CHR ''/'' \<notin> set s \<Longrightarrow>
     split (CHR ''/'') (join ''/'' rel) = rel"
proof (induction rel)
  case Nil
  then show ?case by simp
next
  case (Cons x xs)
  show ?case
  proof (cases "xs = []")
    case True
    with Cons.prems show ?thesis by (simp add: split_no_sep)
  next
    case False
    with Cons show ?thesis
      by (simp add: join_Cons split_append_sep)
  qed
qed

lemma segments_join:
  assumes "rel \<noteq> []" and "list_all valid_segment rel"
  shows "segments (join ''/'' rel) = rel"
proof -
  from assms(2) have "\<forall>s\<in>set rel. CHR ''/'' \<notin> set s"
    by (simp add: list_all_iff valid_segment_def)
  with assms(1) have "split (CHR ''/'') (join ''/'' rel) = rel"
    by (rule split_join)
  moreover from assms(2) have "filter (\<lambda>p. p \<noteq> [] \<and> p \<noteq> ''.'') rel = rel"
    by (auto simp: list_all_iff valid_segment_def intro: filter_True)
  ultimately show ?thesis
    by (simp add: segments_def)
qed


text \<open>Two well-formed absolute paths with the same POSIX string are the same path.\<close>

lemma join_Nil_iff:
  assumes "list_all valid_segment segs"
  shows "join ''/'' segs = [] \<longleftrightarrow> segs = []"
proof (cases segs)
  case Nil
  then show ?thesis by simp
next
  case (Cons x xs)
  with assms have "x \<noteq> []"
    by (simp add: valid_segment_def)
  with Cons show ?thesis
    by (cases xs) simp_all
qed

lemma join_inj:
  assumes "list_all valid_segment xs" and "list_all valid_segment ys"
    and "join ''/'' xs = join ''/'' ys"
  shows "xs = ys"
proof (cases "xs = []")
  case True
  with assms show ?thesis
    by (metis join_Nil_iff)
next
  case False
  with assms have ys: "ys \<noteq> []"
    by (metis join_Nil_iff)
  have "xs = segments (join ''/'' xs)"
    using False assms(1) by (simp add: segments_join)
  also have "\<dots> = segments (join ''/'' ys)"
    by (simp add: assms(3))
  also have "\<dots> = ys"
    using ys assms(2) by (simp add: segments_join)
  finally show ?thesis .
qed

lemma as_posix_inj:
  assumes "wf_path p" and "wf_path q" and "as_posix p = as_posix q"
  shows "p = q"
proof -
  from assms(1) obtain ps where p: "p = ''/'' # ps" and vp: "list_all valid_segment ps"
    by (cases p) (auto simp: wf_path_def)
  from assms(2) obtain qs where q: "q = ''/'' # qs" and vq: "list_all valid_segment qs"
    by (cases q) (auto simp: wf_path_def)
  from assms(3) have "join ''/'' ps = join ''/'' qs"
    by (simp add: p q as_posix_def)
  with vp vq have "ps = qs"
    by (rule join_inj)
  then show ?thesis
    by (simp add: p q)
qed

section \<open>The lexical ranker: tokens and sentinels\<close>

lemma lower_char_idem: "lower_char (lower_char c) = lower_char c"
  by (auto simp: lower_char_def code_def)

lemma lower_idem: "lower (lower s) = lower s"
  by (simp add: lower_def lower_char_idem)

text \<open>
  The ranker lower-cases the query before \<open>tokenize\<close> lower-cases it again; the second
  pass changes nothing, so \<open>q_tokens\<close> is the token set of the query.
\<close>

lemma tokenize_lower: "tokenize (lower s) = tokenize s"
  by (simp add: tokenize_def lower_idem)

lemma findall_runs_Nil_iff:
  "findall_runs cur s = [] \<longleftrightarrow> cur = [] \<and> (\<forall>c\<in>set s. \<not> re_alnum c)"
  by (induction s arbitrary: cur) auto

text \<open>
  The token set is empty exactly when no character of the query lower-cases into
  \<open>[a-z0-9]\<close>: the empty query, and a query of punctuation and spaces only.
\<close>

lemma tokenize_empty_iff:
  "tokenize query = {} \<longleftrightarrow> (\<forall>c\<in>set query. \<not> re_alnum (lower_char c))"
  by (simp add: tokenize_def findall_def findall_runs_Nil_iff lower_def)

lemma locate_empty_tokens:
  "tokenize query = {} \<Longrightarrow> locate_relevant_resouces index query = ''Query is empty.''"
  by (simp add: locate_relevant_resouces_def tokenize_lower)

lemma locate_no_resources:
  "tokenize query \<noteq> {} \<Longrightarrow>
     locate_relevant_resouces [] query = ''No resources available to search.''"
  by (simp add: locate_relevant_resouces_def tokenize_lower)

lemma tokenize_punctuation: "tokenize ''?!'' = {}"
  by (simp add: tokenize_empty_iff re_alnum_def lower_char_def code_def)

lemma tokenize_report: "tokenize ''report'' = {''report''}"
  by (simp add: tokenize_def lower_def lower_char_def findall_def re_alnum_def code_def)

text \<open>
  Claim C4. A query whose token set is empty (the empty query, or one with no run of
  letters or digits) gets the answer \<open>Query is empty.\<close> whatever the index holds; that
  answer is not a ranked list, which starts with \<open>Top candidates:\<close>.
\<close>

theorem empty_query_sentinel:
  assumes "tokenize query = {}"
  shows "locate_relevant_resouces index query = ''Query is empty.'' \<and>
         take 15 (locate_relevant_resouces index query) \<noteq> ''Top candidates:''"
  using locate_empty_tokens [OF assms, of index] by simp

theorem empty_query_sentinel_witness:
  "tokenize ''?!'' = {} \<and> locate_relevant_resouces index0 ''?!'' = ''Query is empty.''"
  using empty_query_sentinel [OF tokenize_punctuation, of index0] tokenize_punctuation
  by simp

text \<open>
  Claim C10. With an empty index, the query is checked first: an empty token set gets
  \<open>Query is empty.\<close> and not the answer for an empty index, which only a query with
  tokens gets.
\<close>

theorem empty_query_before_empty_index:
  "(tokenize query = {} \<longrightarrow>
      locate_relevant_resouces [] query = ''Query is empty.'' \<and>
      locate_relevant_resouces [] query \<noteq> ''No resources available to search.'') \<and>
   (tokenize query \<noteq> {} \<longrightarrow>
      locate_relevant_resouces [] query = ''No resources available to search.'')"
  by (simp add: locate_empty_tokens locate_no_resources)

theorem empty_query_before_empty_index_witness:
  "tokenize ''?!'' = {} \<and> locate_relevant_resouces [] ''?!'' = ''Query is empty.'' \<and>
   tokenize ''report'' \<noteq> {} \<and>
   locate_relevant_resouces [] ''report'' = ''No resources available to search.''"
proof -
  have r: "tokenize ''report'' \<noteq> {}"
    by (simp add: tokenize_report)
  from empty_query_before_empty_index [of "''?!''"] empty_query_before_empty_index [of "''report''"]
    tokenize_punctuation r
  show ?thesis by blast
qed

section \<open>The lexical ranker: scores\<close>

lemma make_candidate_score:
  "cand_score (make_candidate (tokenize (lower query)) item) =
     card (tokenize query \<inter> tokenize (path_name (display_name item)))"
  by (simp add: make_candidate_def Let_def tokenize_lower)

lemma make_candidate_uri: "cand_uri (make_candidate q item) = fst item"
  by (simp add: make_candidate_def Let_def)

lemma make_candidate_meta: "cand_meta (make_candidate q item) = snd item"
  by (simp add: make_candidate_def Let_def)

lemma set_ranked:
  "set (ranked index query) = make_candidate (tokenize (lower query)) ` set index"
  by (simp add: ranked_def build_candidates_def)

lemma mset_ranked_uri: "mset (map cand_uri (ranked index query)) = mset (map fst index)"
proof -
  have "mset (ranked index query) = mset (map (make_candidate (tokenize (lower query))) index)"
    by (simp add: ranked_def build_candidates_def)
  then have "mset (map cand_uri (ranked index query)) =
      mset (map cand_uri (map (make_candidate (tokenize (lower query))) index))"
    by (metis mset_map)
  also have "\<dots> = mset (map fst index)"
    by (simp add: make_candidate_uri comp_def)
  finally show ?thesis .
qed

lemma index0_located:
  "locate_relevant_resouces index0 ''report'' =
     ''Top candidates:\<newline>0- filename: `report 1.pdf` --- (overlap 1)\<newline>1- filename: `draft.pdf` --- (overlap 0)''"
  by code_simp

text \<open>
  Claim C5. The ranked candidates are the items of the index, each once (none is
  filtered out, a score of zero included); the score of each is the number of tokens
  the query shares with the last path segment of the item's display name; and for a
  query with tokens and an index with items the answer lists the first ten of them.
\<close>

theorem overlap_score:
  "mset (map cand_uri (ranked index query)) = mset (map fst index) \<and>
   (\<forall>c\<in>set (ranked index query).
      (cand_uri c, cand_meta c) \<in> set index \<and>
      cand_score c =
        card (tokenize query \<inter>
              tokenize (path_name (display_name (cand_uri c, cand_meta c))))) \<and>
   (tokenize query \<noteq> {} \<and> index \<noteq> [] \<longrightarrow>
      locate_relevant_resouces index query =
        join ''\<newline>''
          (''Top candidates:'' #
           map format_candidate (enumerate 0 (take 10 (ranked index query)))))"
proof (intro conjI ballI impI)
  show "mset (map cand_uri (ranked index query)) = mset (map fst index)"
    by (rule mset_ranked_uri)
next
  fix c assume "c \<in> set (ranked index query)"
  then obtain item where item: "item \<in> set index"
    and c: "c = make_candidate (tokenize (lower query)) item"
    by (auto simp: set_ranked)
  show "(cand_uri c, cand_meta c) \<in> set index"
    using item by (simp add: c make_candidate_uri make_candidate_meta)
  show "cand_score c =
        card (tokenize query \<inter>
              tokenize (path_name (display_name (cand_uri c, cand_meta c))))"
    by (simp add: c make_candidate_score make_candidate_uri make_candidate_meta)
next
  assume "tokenize query \<noteq> {} \<and> index \<noteq> []"
  then show "locate_relevant_resouces index query =
        join ''\<newline>''
          (''Top candidates:'' #
           map format_candidate (enumerate 0 (take 10 (ranked index query))))"
    by (simp add: locate_relevant_resouces_def tokenize_lower)
qed

theorem overlap_score_witness:
  "tokenize ''report'' \<noteq> {} \<and> index0 \<noteq> [] \<and>
   mset (map cand_uri (ranked index0 ''report'')) = mset (map fst index0) \<and>
   locate_relevant_resouces index0 ''report'' =
     join ''\<newline>''
       (''Top candidates:'' #
        map format_candidate (enumerate 0 (take 10 (ranked index0 ''report'')))) \<and>
   locate_relevant_resouces index0 ''report'' =
     ''Top candidates:\<newline>0- filename: `report 1.pdf` --- (overlap 1)\<newline>1- filename: `draft.pdf` --- (overlap 0)''"
proof -
  have r: "tokenize ''report'' \<noteq> {}"
    by (simp add: tokenize_report)
  have i: "index0 \<noteq> []"
    by (simp add: index0_def)
  from overlap_score [of index0 "''report''"] r i index0_located show ?thesis
    by blast
qed

section \<open>The lexical ranker: the order\<close>

lemma sort_key_item_less_iff:
  "sort_key_item a < sort_key_item b \<longleftrightarrow>
     cand_score b < cand_score a \<or>
     cand_score a = cand_score b \<and>
       (meta_mtime (cand_meta b) < meta_mtime (cand_meta a) \<or>
        meta_mtime (cand_meta a) = meta_mtime (cand_meta b) \<and>
          (length (cand_filename a) < length (cand_filename b) \<or>
           length (cand_filename a) = length (cand_filename b) \<and> cand_uri a < cand_uri b))"
  by (auto simp: sort_key_item_def less_prod_simp)

lemma sort_key_item_uri: "sort_key_item a = sort_key_item b \<Longrightarrow> cand_uri a = cand_uri b"
  by (simp add: sort_key_item_def)

lemma distinct_candidate_keys:
  assumes "distinct (map fst index)"
  shows "distinct (map sort_key_item (build_candidates q index))"
proof -
  have "inj_on (\<lambda>item. sort_key_item (make_candidate q item)) (set index)"
  proof (rule inj_onI)
    fix x y assume x: "x \<in> set index" and y: "y \<in> set index"
      and eq: "sort_key_item (make_candidate q x) = sort_key_item (make_candidate q y)"
    from eq have "fst x = fst y"
      using sort_key_item_uri [OF eq] by (simp add: make_candidate_uri)
    with assms x y show "x = y"
      by (meson distinct_map inj_onD)
  qed
  moreover from assms have "distinct index"
    by (simp add: distinct_map)
  ultimately show ?thesis
    by (simp add: build_candidates_def distinct_map comp_def)
qed

lemma ranked_strictly_sorted:
  assumes "distinct (map fst index)"
  shows "sorted_wrt (<) (map sort_key_item (ranked index query))"
proof -
  let ?cs = "build_candidates (tokenize (lower query)) index"
  have "mset (map sort_key_item (sort_key sort_key_item ?cs)) = mset (map sort_key_item ?cs)"
    by simp
  then have "distinct (map sort_key_item (sort_key sort_key_item ?cs)) =
      distinct (map sort_key_item ?cs)"
    by (rule mset_eq_imp_distinct_iff)
  with distinct_candidate_keys [OF assms]
  have "distinct (map sort_key_item (ranked index query))"
    by (simp add: ranked_def)
  moreover have "sorted (map sort_key_item (ranked index query))"
    by (simp add: ranked_def sorted_sort_key)
  ultimately show ?thesis
    by (simp add: strict_sorted_iff)
qed

text \<open>
  Claim C2. In an index with one item per URI, the keys of the ranked candidates
  ascend strictly: no two candidates have the same key. Of two candidates the one with
  the higher score comes first; at equal scores the later \<open>mtime\<close>; then the shorter
  file name; then the smaller URI.
\<close>

theorem sort_key_strict_total_order:
  assumes "distinct (map fst index)"
  shows "sorted_wrt (\<lambda>a b. sort_key_item a < sort_key_item b) (ranked index query) \<and>
    (\<forall>a\<in>set (ranked index query). \<forall>b\<in>set (ranked index query). a \<noteq> b \<longrightarrow>
       sort_key_item a \<noteq> sort_key_item b \<and>
       (sort_key_item a < sort_key_item b \<or> sort_key_item b < sort_key_item a) \<and>
       (sort_key_item a < sort_key_item b \<longleftrightarrow>
          cand_score b < cand_score a \<or>
          cand_score a = cand_score b \<and>
            (meta_mtime (cand_meta b) < meta_mtime (cand_meta a) \<or>
             meta_mtime (cand_meta a) = meta_mtime (cand_meta b) \<and>
               (length (cand_filename a) < length (cand_filename b) \<or>
                length (cand_filename a) = length (cand_filename b) \<and>
                  cand_uri a < cand_uri b))))"
proof (intro conjI ballI impI)
  show "sorted_wrt (\<lambda>a b. sort_key_item a < sort_key_item b) (ranked index query)"
    using ranked_strictly_sorted [OF assms, of query] by (simp add: sorted_wrt_map)
next
  fix a b
  assume a: "a \<in> set (ranked index query)" and b: "b \<in> set (ranked index query)"
    and ne: "a \<noteq> b"
  have "distinct (map sort_key_item (ranked index query))"
    using ranked_strictly_sorted [OF assms, of query] by (simp add: strict_sorted_iff)
  then have "inj_on sort_key_item (set (ranked index query))"
    by (simp add: distinct_map)
  with a b ne show neq: "sort_key_item a \<noteq> sort_key_item b"
    by (auto dest: inj_onD)
  then show "sort_key_item a < sort_key_item b \<or> sort_key_item b < sort_key_item a"
    by (rule linorder_neqE) simp_all
  show "sort_key_item a < sort_key_item b \<longleftrightarrow>
          cand_score b < cand_score a \<or>
          cand_score a = cand_score b \<and>
            (meta_mtime (cand_meta b) < meta_mtime (cand_meta a) \<or>
             meta_mtime (cand_meta a) = meta_mtime (cand_meta b) \<and>
               (length (cand_filename a) < length (cand_filename b) \<or>
                length (cand_filename a) = length (cand_filename b) \<and>
                  cand_uri a < cand_uri b))"
    by (rule sort_key_item_less_iff)
qed

lemma index1_ranked: "map cand_uri (ranked index1 ''report'') =
    [''workspace://c/report.pdf'', ''workspace://a/report.pdf'', ''workspace://b/report.pdf'']"
  by code_simp

theorem sort_key_strict_total_order_witness:
  "distinct (map fst index1) \<and>
   sorted_wrt (\<lambda>a b. sort_key_item a < sort_key_item b) (ranked index1 ''report'') \<and>
   map cand_uri (ranked index1 ''report'') =
    [''workspace://c/report.pdf'', ''workspace://a/report.pdf'', ''workspace://b/report.pdf'']"
proof -
  have d: "distinct (map fst index1)"
    by (simp add: index1_def)
  from sort_key_strict_total_order [OF d, of "''report''"] d index1_ranked show ?thesis
    by blast
qed


section \<open>The walker\<close>

lemma accept_ignored:
  "ig \<in> set ignore_dirs \<Longrightarrow> ig \<in> set p \<Longrightarrow> accept env ignore_dirs fol mb p = Inr False"
  by (auto simp: accept_def)

lemma scan_paths_accepted:
  "p \<in> set (scan_paths env ign fol mb ps) \<Longrightarrow>
     p \<in> set ps \<and> accept env ign fol mb p = Inr True"
  by (induction ps) (auto split: sum.splits bool.splits if_splits)

lemma collect_accepted:
  "p \<in> set (collect env rootp globs ign fol mb) \<Longrightarrow>
     (\<exists>pattern\<in>set globs. p \<in> set (fs_glob env rootp pattern)) \<and>
     accept env ign fol mb p = Inr True"
  by (auto simp: collect_def dest: scan_paths_accepted)

lemma set_scan:
  "set (scan env rootp globs ign fol mb) = set (collect env rootp globs ign fol mb)"
  by (simp add: scan_def)


text \<open>
  Claim C6. A path with a segment equal to one of the ignored directory names is not
  in the result of the scan. The test reads all parts of the path, those of the
  workspace root and the file name included.
\<close>

theorem ignored_segment_excluded:
  assumes "ig \<in> set ignore_dirs" and "ig \<in> set p"
  shows "p \<notin> set (scan env rootp include_globs ignore_dirs follow_symlinks max_bytes)"
proof
  assume "p \<in> set (scan env rootp include_globs ignore_dirs follow_symlinks max_bytes)"
  then have "accept env ignore_dirs follow_symlinks max_bytes p = Inr True"
    by (simp add: set_scan collect_accepted)
  moreover have "accept env ignore_dirs follow_symlinks max_bytes p = Inr False"
    using assms by (rule accept_ignored)
  ultimately show False by simp
qed

theorem ignored_segment_excluded_witness:
  "''.git'' \<in> set default_ignore \<and> ''.git'' \<in> set [''/'', ''w'', ''.git'', ''x.pdf''] \<and>
   [''/'', ''w'', ''.git'', ''x.pdf''] \<in> set (fs_glob env0 [''/'', ''w''] ''**/*.pdf'') \<and>
   [''/'', ''w'', ''.git'', ''x.pdf'']
     \<notin> set (scan env0 [''/'', ''w''] [''**/*.pdf''] default_ignore False None)"
proof -
  have a: "''.git'' \<in> set default_ignore"
    by (simp add: default_ignore_def)
  have b: "''.git'' \<in> set [''/'', ''w'', ''.git'', ''x.pdf'']"
    by simp
  have c: "[''/'', ''w'', ''.git'', ''x.pdf''] \<in> set (fs_glob env0 [''/'', ''w''] ''**/*.pdf'')"
    by (simp add: env0_def glob0_def)
  from ignored_segment_excluded [OF a b] a b c show ?thesis
    by blast
qed

section \<open>The walker: order, duplicates, a second run\<close>

lemma submset_add_mset: "A \<subseteq># B \<Longrightarrow> A \<subseteq># add_mset p B"
  by (auto simp: subseteq_mset_def intro: le_SucI)

lemma mset_scan_paths: "mset (scan_paths env ign fol mb ps) \<subseteq># mset ps"
proof (induction ps)
  case Nil
  show ?case by simp
next
  case (Cons p ps)
  have "mset (scan_paths env ign fol mb ps) \<subseteq># add_mset p (mset ps)"
    using Cons.IH by (rule submset_add_mset)
  with Cons.IH show ?case
    by (auto split: sum.splits bool.splits)
qed

lemma mset_collect:
  "mset (collect env rootp globs ign fol mb)
     \<subseteq># mset (concat (map (fs_glob env rootp) globs))"
proof (induction globs)
  case Nil
  show ?case by (simp add: collect_def)
next
  case (Cons g globs)
  have "mset (scan_paths env ign fol mb (fs_glob env rootp g)) +
          mset (collect env rootp globs ign fol mb)
        \<subseteq># mset (fs_glob env rootp g) + mset (concat (map (fs_glob env rootp) globs))"
    using mset_scan_paths Cons.IH by (rule subset_mset.add_mono)
  then show ?case
    by (simp add: collect_def)
qed

lemma mset_scan:
  "mset (scan env rootp globs ign fol mb) \<subseteq># mset (concat (map (fs_glob env rootp) globs))"
  by (simp add: scan_def mset_collect)

lemma distinct_submset:
  assumes "mset xs \<subseteq># mset ys" and "distinct ys"
  shows "distinct xs"
proof -
  have "count (mset xs) a \<le> 1" for a
  proof -
    have "count (mset xs) a \<le> count (mset ys) a"
      using assms(1) by (rule mset_subset_eq_count)
    also have "\<dots> \<le> 1"
      using assms(2) by (simp add: distinct_count_atmost_1)
    finally show ?thesis .
  qed
  then show ?thesis
    unfolding distinct_count_atmost_1
    by (metis count_mset_0_iff le_antisym linorder_not_less less_one)
qed

lemma sorted_scan: "sorted (map as_posix (scan env rootp globs ign fol mb))"
  by (simp add: scan_def)

lemma register_env:
  "register_file_resources w workspace globs ign fol mb = Inr w' \<Longrightarrow> w_env w' = w_env w"
  by (auto simp: register_file_resources_def Let_def split: sum.splits bool.splits)

lemma register_index:
  "register_file_resources w workspace globs ign fol mb = Inr w' \<Longrightarrow>
     w_index w' =
       build_index (w_env w) (fs_resolve (w_env w) workspace)
         (scan (w_env w) (fs_resolve (w_env w) workspace) globs ign fol mb)"
  by (auto simp: register_file_resources_def Let_def split: sum.splits bool.splits)

lemma register_again:
  "register_file_resources w workspace globs ign fol mb = Inr w' \<Longrightarrow>
     register_file_resources w' workspace globs ign fol mb = Inr w'"
  by (auto simp: register_file_resources_def Let_def split: sum.splits bool.splits)



text \<open>
  Claim C3, the claim as stated fails: with the include patterns \<open>**/*.pdf\<close> and
  \<open>*.pdf\<close> the file \<open>/w/a.pdf\<close> is found by both and stands twice in the result. The
  walker appends what every pattern yields and never removes a repeated path.
\<close>

theorem scan_duplicates_counterexample:
  "\<not> distinct (scan env0 [''/'', ''w''] [''**/*.pdf'', ''*.pdf''] default_ignore False None)"
  by code_simp

text \<open>
  When no check raises, the loop over a pattern is a filter, and the scan does not
  depend on the order in which \<open>glob\<close> lists the paths: the sort decides it.
\<close>

lemma scan_paths_filter:
  "\<forall>p\<in>set ps. \<not> isl (accept env ign fol mb p) \<Longrightarrow>
     scan_paths env ign fol mb ps = filter (\<lambda>p. accept env ign fol mb p = Inr True) ps"
  by (induction ps) (auto split: sum.splits bool.splits)

lemma accept_glob_update: "accept (env\<lparr>fs_glob := g\<rparr>) ign fol mb p = accept env ign fol mb p"
  by (simp add: accept_def cong: sum.case_cong bool.case_cong option.case_cong if_cong)

lemma scan_paths_glob_update:
  "scan_paths (env\<lparr>fs_glob := g\<rparr>) ign fol mb ps = scan_paths env ign fol mb ps"
  by (induction ps) (simp_all add: accept_glob_update cong: sum.case_cong bool.case_cong)

lemma collect_filter:
  "\<forall>pattern\<in>set globs. \<forall>p\<in>set (fs_glob env rootp pattern).
      \<not> isl (accept env ign fol mb p) \<Longrightarrow>
   collect env rootp globs ign fol mb =
     filter (\<lambda>p. accept env ign fol mb p = Inr True) (concat (map (fs_glob env rootp) globs))"
proof (induction globs)
  case Nil
  show ?case by (simp add: collect_def)
next
  case (Cons pattern globs)
  from Cons.prems have "scan_paths env ign fol mb (fs_glob env rootp pattern) =
      filter (\<lambda>p. accept env ign fol mb p = Inr True) (fs_glob env rootp pattern)"
    by (intro scan_paths_filter) simp
  moreover from Cons have "collect env rootp globs ign fol mb =
      filter (\<lambda>p. accept env ign fol mb p = Inr True) (concat (map (fs_glob env rootp) globs))"
    by simp
  ultimately show ?case
    by (simp add: collect_def)
qed

lemma mset_concat_map_cong:
  "\<forall>x\<in>set xs. mset (f x) = mset (g x) \<Longrightarrow> mset (concat (map f xs)) = mset (concat (map g xs))"
  by (induction xs) simp_all

lemma scan_exact:
  assumes "\<forall>pattern\<in>set globs. \<forall>p\<in>set (fs_glob env rootp pattern).
      \<not> isl (accept env ign fol mb p)"
  shows "mset (scan env rootp globs ign fol mb) =
     filter_mset (\<lambda>p. accept env ign fol mb p = Inr True)
       (mset (concat (map (fs_glob env rootp) globs)))"
  by (simp add: scan_def collect_filter [OF assms])

lemma scan_glob_order:
  assumes ok: "\<forall>pattern\<in>set globs. \<forall>p\<in>set (fs_glob env rootp pattern).
      wf_path p \<and> \<not> isl (accept env ign fol mb p)"
    and perm: "\<forall>pattern\<in>set globs. mset (g rootp pattern) = mset (fs_glob env rootp pattern)"
  shows "scan (env\<lparr>fs_glob := g\<rparr>) rootp globs ign fol mb = scan env rootp globs ign fol mb"
proof -
  let ?env' = "env\<lparr>fs_glob := g\<rparr>"
  let ?A = "\<lambda>p. accept env ign fol mb p = Inr True"
  from ok have nr: "\<forall>pattern\<in>set globs. \<forall>p\<in>set (fs_glob env rootp pattern).
      \<not> isl (accept env ign fol mb p)"
    by blast
  have sets: "set (g rootp pattern) = set (fs_glob env rootp pattern)"
    if "pattern \<in> set globs" for pattern
    using perm that by (metis mset_eq_setD)
  have nr': "\<forall>pattern\<in>set globs. \<forall>p\<in>set (fs_glob ?env' rootp pattern).
      \<not> isl (accept ?env' ign fol mb p)"
    using nr sets by (simp add: accept_glob_update)
  have "mset (collect ?env' rootp globs ign fol mb) =
      filter_mset ?A (mset (concat (map (g rootp) globs)))"
    by (simp add: collect_filter [OF nr'] accept_glob_update)
  also have "mset (concat (map (g rootp) globs)) = mset (concat (map (fs_glob env rootp) globs))"
    using perm by (rule mset_concat_map_cong)
  also have "filter_mset ?A (mset (concat (map (fs_glob env rootp) globs))) =
      mset (collect env rootp globs ign fol mb)"
    by (simp add: collect_filter [OF nr])
  finally have m: "mset (collect ?env' rootp globs ign fol mb) =
      mset (scan env rootp globs ign fol mb)"
    by (simp add: scan_def)
  have "inj_on as_posix (set (collect ?env' rootp globs ign fol mb))"
  proof (rule inj_onI)
    fix p q
    assume p: "p \<in> set (collect ?env' rootp globs ign fol mb)"
      and q: "q \<in> set (collect ?env' rootp globs ign fol mb)"
      and eq: "as_posix p = as_posix q"
    from p sets ok have "wf_path p"
      by (fastforce dest: collect_accepted)
    moreover from q sets ok have "wf_path q"
      by (fastforce dest: collect_accepted)
    ultimately show "p = q"
      using eq by (rule as_posix_inj)
  qed
  with m have "sort_key as_posix (collect ?env' rootp globs ign fol mb) =
      scan env rootp globs ign fol mb"
    by (rule sort_key_inj_key_eq) (rule sorted_scan)
  then show ?thesis
    by (simp add: scan_def)
qed

text \<open>
  Claim C3, amended. The result of the scan is sorted by the POSIX string of the
  paths. It holds a path at most as often as the include patterns yield it, so it has
  no duplicates when they yield no path twice; when no check raises it holds exactly
  the yielded paths that pass the checks, each as often as it is yielded. And it is
  reproducible: when no check raises and the yielded paths are well-formed, the result
  is the same for every order in which \<open>glob\<close> lists the same paths.
\<close>

theorem scan_sorted_reproducible:
  "sorted (map as_posix (scan env rootp include_globs ignore_dirs follow_symlinks max_bytes)) \<and>
   mset (scan env rootp include_globs ignore_dirs follow_symlinks max_bytes)
     \<subseteq># mset (concat (map (fs_glob env rootp) include_globs)) \<and>
   (distinct (concat (map (fs_glob env rootp) include_globs)) \<longrightarrow>
      distinct (scan env rootp include_globs ignore_dirs follow_symlinks max_bytes)) \<and>
   ((\<forall>pattern\<in>set include_globs. \<forall>p\<in>set (fs_glob env rootp pattern).
       \<not> isl (accept env ignore_dirs follow_symlinks max_bytes p)) \<longrightarrow>
      mset (scan env rootp include_globs ignore_dirs follow_symlinks max_bytes) =
        filter_mset (\<lambda>p. accept env ignore_dirs follow_symlinks max_bytes p = Inr True)
          (mset (concat (map (fs_glob env rootp) include_globs)))) \<and>
   ((\<forall>pattern\<in>set include_globs. \<forall>p\<in>set (fs_glob env rootp pattern).
       wf_path p \<and> \<not> isl (accept env ignore_dirs follow_symlinks max_bytes p)) \<and>
    (\<forall>pattern\<in>set include_globs.
       mset (glob' rootp pattern) = mset (fs_glob env rootp pattern)) \<longrightarrow>
      scan (env\<lparr>fs_glob := glob'\<rparr>) rootp include_globs ignore_dirs follow_symlinks max_bytes =
        scan env rootp include_globs ignore_dirs follow_symlinks max_bytes)"
proof (intro conjI impI)
  show "sorted (map as_posix (scan env rootp include_globs ignore_dirs follow_symlinks max_bytes))"
    by (rule sorted_scan)
  show "mset (scan env rootp include_globs ignore_dirs follow_symlinks max_bytes)
     \<subseteq># mset (concat (map (fs_glob env rootp) include_globs))"
    by (rule mset_scan)
next
  assume "distinct (concat (map (fs_glob env rootp) include_globs))"
  with mset_scan show "distinct (scan env rootp include_globs ignore_dirs follow_symlinks max_bytes)"
    by (rule distinct_submset)
next
  assume "\<forall>pattern\<in>set include_globs. \<forall>p\<in>set (fs_glob env rootp pattern).
       \<not> isl (accept env ignore_dirs follow_symlinks max_bytes p)"
  then show "mset (scan env rootp include_globs ignore_dirs follow_symlinks max_bytes) =
        filter_mset (\<lambda>p. accept env ignore_dirs follow_symlinks max_bytes p = Inr True)
          (mset (concat (map (fs_glob env rootp) include_globs)))"
    by (rule scan_exact)
next
  assume "(\<forall>pattern\<in>set include_globs. \<forall>p\<in>set (fs_glob env rootp pattern).
       wf_path p \<and> \<not> isl (accept env ignore_dirs follow_symlinks max_bytes p)) \<and>
    (\<forall>pattern\<in>set include_globs.
       mset (glob' rootp pattern) = mset (fs_glob env rootp pattern))"
  then show "scan (env\<lparr>fs_glob := glob'\<rparr>) rootp include_globs ignore_dirs follow_symlinks
        max_bytes =
        scan env rootp include_globs ignore_dirs follow_symlinks max_bytes"
    by (intro scan_glob_order) simp_all
qed

text \<open>
  With the two patterns of the counterexample, listed in either order by \<open>glob\<close>, the
  scan is the same sequence, and \<open>/w/a.pdf\<close> stands in it twice; with the default
  pattern alone no path is yielded twice and none stands twice in the result.
\<close>

theorem scan_sorted_reproducible_witness:
  "scan (env0\<lparr>fs_glob := glob0_rev\<rparr>) [''/'', ''w''] [''**/*.pdf'', ''*.pdf''] default_ignore
     False None =
     scan env0 [''/'', ''w''] [''**/*.pdf'', ''*.pdf''] default_ignore False None \<and>
   scan env0 [''/'', ''w''] [''**/*.pdf'', ''*.pdf''] default_ignore False None =
     [[''/'', ''w'', ''a.pdf''], [''/'', ''w'', ''a.pdf''],
      [''/'', ''w'', ''docs'', ''report 1.pdf'']] \<and>
   distinct (concat (map (fs_glob env0 [''/'', ''w'']) [''**/*.pdf''])) \<and>
   distinct (scan env0 [''/'', ''w''] [''**/*.pdf''] default_ignore False None) \<and>
   sorted (map as_posix (scan env0 [''/'', ''w''] [''**/*.pdf''] default_ignore False None))"
proof -
  have ok: "\<forall>pattern\<in>set [''**/*.pdf'', ''*.pdf''].
      \<forall>p\<in>set (fs_glob env0 [''/'', ''w''] pattern).
        wf_path p \<and> \<not> isl (accept env0 default_ignore False None p)"
    by code_simp
  have perm: "\<forall>pattern\<in>set [''**/*.pdf'', ''*.pdf''].
      mset (glob0_rev [''/'', ''w''] pattern) = mset (fs_glob env0 [''/'', ''w''] pattern)"
    by (simp add: glob0_rev_def env0_def)
  have d: "distinct (concat (map (fs_glob env0 [''/'', ''w'']) [''**/*.pdf'']))"
    by code_simp
  have two: "scan env0 [''/'', ''w''] [''**/*.pdf'', ''*.pdf''] default_ignore False None =
     [[''/'', ''w'', ''a.pdf''], [''/'', ''w'', ''a.pdf''],
      [''/'', ''w'', ''docs'', ''report 1.pdf'']]"
    by code_simp
  from scan_sorted_reproducible [of env0 "[''/'', ''w'']" "[''**/*.pdf'', ''*.pdf'']"
      default_ignore False None glob0_rev]
    scan_sorted_reproducible [of env0 "[''/'', ''w'']" "[''**/*.pdf'']" default_ignore False
      None glob0_rev]
    ok perm d two
  show ?thesis
    by blast
qed

section \<open>The content accessor\<close>

lemma page_texts_limit:
  "page_texts (Inr n) pages =
     map (\<lambda>t. if 0 < n then take (nat n) t else t) [t. Inr t \<leftarrow> pages, t \<noteq> []]"
  by (induction pages) (auto split: sum.splits)

text \<open>A limit that is not a number loses every page: the conversion fails page by page.\<close>

lemma page_texts_bad_limit: "page_texts (Inl e) pages = []"
  by (induction pages) (auto split: sum.splits)

text \<open>
  For a relative path whose \<open>exists()\<close> and \<open>is_file()\<close> tests do not raise, the
  accessor returns a string: every exception of the reading is caught.
\<close>

lemma obtain_relative_returns:
  assumes "\<not> is_absolute path"
    and "fs_exists env (fs_resolve_join env (fs_resolve env wd) path) = Inr b"
    and "fs_is_file env (fs_resolve_join env (fs_resolve env wd) path) = Inr b'"
  shows "\<exists>text. obtain_resource_content env wd limit path = Inr text"
  using assms
  by (auto simp: obtain_resource_content_def Let_def split: sum.splits bool.splits)

lemma obtain_absolute_raises:
  "is_absolute path \<Longrightarrow>
     \<exists>msg. obtain_resource_content env wd limit path = Inl (Raised UnboundLocalError msg)"
  by (simp add: obtain_resource_content_def)

text \<open>
  Claim C1. The claim fails on the code for every absolute path: \<open>path_obj\<close> is bound
  only when the path is relative, and the test \<open>path_obj.exists()\<close>, which stands
  before the \<open>try\<close>, raises \<open>UnboundLocalError\<close>, whatever the file system holds.
\<close>

theorem obtain_absolute_path_raises:
  "obtain_resource_content env workspace_directory limit ''/w/notes.txt'' =
     Inl (Raised UnboundLocalError
       ''cannot access local variable 'path_obj' where it is not associated with a value'')"
  by (simp add: obtain_resource_content_def is_absolute_def startswith_def)

text \<open>
  Claim C9. Reading a PDF, the answer is the header and the texts of the pages joined
  by newlines, where a page that fails or has no text is left out and the text of each
  other page is cut to its first \<open>n\<close> characters when the limit \<open>n\<close> is positive, and
  is whole when \<open>n\<close> is zero or negative (\<open>-1\<close> is the default).
\<close>

theorem pdf_extract_limit:
  assumes "\<not> is_absolute path" and "endswith (lower (strip path)) ''.pdf''"
    and "fs_exists env (fs_resolve_join env (fs_resolve env wd) path) = Inr True"
    and "fs_is_file env (fs_resolve_join env (fs_resolve env wd) path) = Inr True"
    and "fs_read_pdf env (fs_resolve_join env (fs_resolve env wd) path) = Inr pages"
  shows "obtain_resource_content env wd (Inr n) path =
     Inr (''Contents of '' @ path @ '':\<newline>'' @
          join ''\<newline>''
            (map (\<lambda>t. if 0 < n then take (nat n) t else t) [t. Inr t \<leftarrow> pages, t \<noteq> []]))"
  using assms
  by (simp add: obtain_resource_content_def Let_def read_content_def page_texts_limit)

text \<open>
  The scenario of the claim: the first page of \<open>a.pdf\<close> has 200 characters, and with
  the limit 50 its first 50 characters are in the answer.
\<close>

theorem pdf_extract_limit_witness:
  "\<not> is_absolute ''a.pdf'' \<and> endswith (lower (strip ''a.pdf'')) ''.pdf'' \<and>
   fs_read_pdf env0 (fs_resolve_join env0 (fs_resolve env0 ''/w'') ''a.pdf'') = Inr pages0 \<and>
   obtain_resource_content env0 ''/w'' (Inr 50) ''a.pdf'' =
     Inr (''Contents of a.pdf:\<newline>'' @ replicate 50 (CHR ''x'') @ ''\<newline>tail'')"
proof -
  have h1: "\<not> is_absolute ''a.pdf''"
    by code_simp
  have h2: "endswith (lower (strip ''a.pdf'')) ''.pdf''"
    by code_simp
  have h3: "fs_exists env0 (fs_resolve_join env0 (fs_resolve env0 ''/w'') ''a.pdf'') = Inr True"
    by code_simp
  have h4: "fs_is_file env0 (fs_resolve_join env0 (fs_resolve env0 ''/w'') ''a.pdf'') = Inr True"
    by code_simp
  have h5: "fs_read_pdf env0 (fs_resolve_join env0 (fs_resolve env0 ''/w'') ''a.pdf'') = Inr pages0"
    by code_simp
  have "obtain_resource_content env0 ''/w'' (Inr 50) ''a.pdf'' =
     Inr (''Contents of a.pdf:\<newline>'' @ replicate 50 (CHR ''x'') @ ''\<newline>tail'')"
    using pdf_extract_limit [OF h1 h2 h3 h4 h5, of 50] by (simp add: pages0_def)
  with h1 h2 h5 show ?thesis
    by blast
qed

section \<open>URIs: the round trip\<close>
















section \<open>The index\<close>





lemma distinct_foldl_index_file:
  "distinct (map fst index) \<Longrightarrow> distinct (map fst (foldl (index_file env rootp) index ps))"
proof (induction ps arbitrary: index)
  case Nil
  then show ?case by simp
next
  case (Cons p ps)
  have "distinct (map fst (index_file env rootp index p))"
    using Cons.prems
    by (auto simp: index_file_def Let_def distinct_update split: sum.splits option.splits)
  then show ?case
    using Cons.IH by simp
qed

lemma distinct_build_index: "distinct (map fst (build_index env rootp ps))"
  by (simp add: build_index_def distinct_foldl_index_file)


text \<open>The index that \<open>register_file_resources\<close> builds holds every URI once.\<close>

lemma register_distinct_uris:
  "register_file_resources w workspace globs ign fol mb = Inr w' \<Longrightarrow>
     distinct (map fst (w_index w'))"
  by (simp add: register_index distinct_build_index)



section \<open>Floats: rounding\<close>

text \<open>
  \<open>round_half_even\<close> gives an integer nearest to the quotient, and \<open>round53\<close> a
  number with at most 53 significant bits that is nearest to the exact one: the error
  is at most half a unit of the last bit kept.
\<close>

lemma round_half_even_nearest:
  assumes "0 < d"
  shows "2 * \<bar>round_half_even n d * d - n\<bar> \<le> d"
proof -
  let ?q = "n div d" and ?r = "n mod d"
  have e: "?q * d = n - ?r"
    by (simp add: minus_mod_eq_div_mult)
  have m: "(?q + 1) * d = ?q * d + d"
    by (simp add: distrib_right)
  have r: "0 \<le> ?r" "?r < d"
    using assms by simp_all
  show ?thesis
  proof (cases "d < 2 * ?r \<or> (2 * ?r = d \<and> odd ?q)")
    case True
    then have rq: "round_half_even n d = ?q + 1"
      by (simp add: round_half_even_def Let_def)
    from m e have "(?q + 1) * d - n = d - ?r"
      by linarith
    with True r show ?thesis
      unfolding rq by auto
  next
    case False
    then have rq: "round_half_even n d = ?q"
      by (simp add: round_half_even_def Let_def)
    from e have "?q * d - n = - ?r"
      by linarith
    with False r show ?thesis
      unfolding rq by auto
  qed
qed

lemma bit_length_bounds: "0 < n \<Longrightarrow> 2 ^ (bit_length n - 1) \<le> n \<and> n < 2 ^ bit_length n"
proof (induction n rule: bit_length.induct)
  case (1 n)
  show ?case
  proof (cases "n = 1")
    case True
    then show ?thesis
      by (simp add: bit_length.simps [of 1] bit_length.simps [of 0])
  next
    case False
    with "1.prems" have h: "0 < n div 2" "\<not> n \<le> 0"
      by auto
    with "1.IH" have ih: "2 ^ (bit_length (n div 2) - 1) \<le> n div 2" "n div 2 < 2 ^ bit_length (n div 2)"
      by auto
    have pos: "0 < bit_length (n div 2)"
      using h(1) by (subst bit_length.simps) simp
    have bl: "bit_length n = Suc (bit_length (n div 2))"
      using h(2) by (subst bit_length.simps) simp
    from pos have "(2::int) ^ bit_length (n div 2) = 2 * 2 ^ (bit_length (n div 2) - 1)"
      by (cases "bit_length (n div 2)") simp_all
    moreover have "2 * (n div 2) \<le> n" "n \<le> 2 * (n div 2) + 1"
      by presburger+
    ultimately show ?thesis
      unfolding bl using ih by simp
  qed
qed

lemma round53_exact: "bit_length \<bar>m\<bar> \<le> 53 \<Longrightarrow> round53 m e = Float m e"
  by (simp add: round53_def)

lemma round_half_even_upper:
  assumes "0 < d" and "0 \<le> n" and "n < b * d"
  shows "round_half_even n d \<le> b"
proof -
  have "n div d < b"
  proof (rule ccontr)
    assume "\<not> n div d < b"
    then have "b * d \<le> n div d * d"
      using assms(1) by (intro mult_right_mono) simp_all
    also have "n div d * d = n - n mod d"
      by (simp add: minus_mod_eq_div_mult)
    also have "\<dots> \<le> n"
      using assms(1) by simp
    finally show False
      using assms(3) by simp
  qed
  then show ?thesis
    by (simp add: round_half_even_def Let_def)
qed

lemma round53_nearest:
  "\<exists>m' k. round53 m e = Float m' (e + int k) \<and> 2 * \<bar>m' * 2 ^ k - m\<bar> \<le> 2 ^ k \<and> \<bar>m'\<bar> \<le> 2 ^ 53"
proof (cases "bit_length \<bar>m\<bar> - 53 = 0")
  case True
  have "\<bar>m\<bar> \<le> 2 ^ 53"
  proof (cases "m = 0")
    case True
    then show ?thesis by simp
  next
    case False
    then have "\<bar>m\<bar> < 2 ^ bit_length \<bar>m\<bar>"
      using bit_length_bounds [of "\<bar>m\<bar>"] by simp
    also from True have "(2::int) ^ bit_length \<bar>m\<bar> \<le> 2 ^ 53"
      by (intro power_increasing) simp_all
    finally show ?thesis by simp
  qed
  moreover from True have "round53 m e = Float m (e + int 0)"
    by (simp add: round53_def)
  ultimately show ?thesis
    by (intro exI [of _ m] exI [of _ 0]) simp
next
  case False
  define k where "k = bit_length \<bar>m\<bar> - 53"
  define q where "q = round_half_even \<bar>m\<bar> (2 ^ k)"
  from False have k: "0 < k" "bit_length \<bar>m\<bar> = 53 + k"
    by (simp_all add: k_def)
  then have m0: "m \<noteq> 0"
    by (auto simp: bit_length.simps [of 0])
  have r: "round53 m e = Float (sgn m * q) (e + int k)"
    using False by (simp add: round53_def k_def q_def Let_def)
  have near: "2 * \<bar>q * 2 ^ k - \<bar>m\<bar>\<bar> \<le> 2 ^ k"
    unfolding q_def by (rule round_half_even_nearest) simp
  have "sgn m * q * 2 ^ k - m = sgn m * (q * 2 ^ k - \<bar>m\<bar>)"
    by (simp add: algebra_simps abs_mult_sgn)
  then have "\<bar>sgn m * q * 2 ^ k - m\<bar> = \<bar>q * 2 ^ k - \<bar>m\<bar>\<bar>"
    using m0 by (simp add: abs_mult abs_sgn_eq)
  with near have n: "2 * \<bar>sgn m * q * 2 ^ k - m\<bar> \<le> 2 ^ k"
    by simp
  have "\<bar>m\<bar> < 2 ^ bit_length \<bar>m\<bar>"
    using m0 bit_length_bounds [of "\<bar>m\<bar>"] by simp
  then have "\<bar>m\<bar> < 2 ^ 53 * 2 ^ k"
    by (simp add: k(2) power_add)
  then have "q \<le> 2 ^ 53"
    unfolding q_def by (intro round_half_even_upper) simp_all
  moreover have "0 \<le> q"
    by (simp add: q_def round_half_even_def Let_def pos_imp_zdiv_nonneg_iff)
  ultimately have "\<bar>sgn m * q\<bar> \<le> 2 ^ 53"
    using m0 by (simp add: abs_mult abs_sgn_eq)
  with r n show ?thesis
    by blast
qed

section \<open>The similarity ranker\<close>

text \<open>
  \<open>float_0_1\<close> and \<open>float_0_4\<close> are the doubles nearest to 0.1 and 0.4: each has a
  53-bit mantissa and is nearer to the decimal than half a unit of its last bit.
\<close>

lemma similarity_0_1: "float_sub (Float 1 0) float_0_1 = Float 8106479329266893 (- 53)"
  by code_simp

lemma similarity_0_4: "float_sub (Float 1 0) float_0_4 = Float 5404319552844595 (- 53)"
  by code_simp

lemma float_0_1_nearest: "\<bar>float_value 7205759403792794 (- 56) - 1 / 10\<bar> < 1 / 2 ^ 57"
  by (simp add: float_value_def)

lemma float_0_4_nearest: "\<bar>float_value 7205759403792794 (- 54) - 4 / 10\<bar> < 1 / 2 ^ 55"
  by (simp add: float_value_def)






end
